theory Spec2Isabelle
  imports Complex_Main "HOL-Library.Stream"
begin

section \<open>Python values, faults and the random source\<close>

text \<open>
  The three modules compute on Python dictionaries with string keys and numeric
  values. A dictionary is a map from strings; reading a missing key raises
  \<open>KeyError\<close>, dividing by zero raises \<open>ZeroDivisionError\<close>. Both are
  values of \<open>error\<close>, and every function that can raise returns \<open>error + 'a\<close>.

  Python's floats are embedded as exact reals wherever the statement proved does not
  depend on rounding. The generator-temperature update, whose step-by-step
  monotonicity does depend on it, is modelled a second time in IEEE double precision.
\<close>

datatype error = KeyError string | ZeroDivisionError

type_synonym snapshot = "string \<rightharpoonup> real"

definition getitem :: "(string \<rightharpoonup> 'v) \<Rightarrow> string \<Rightarrow> error + 'v" where
  "getitem d k = (case d k of None \<Rightarrow> Inl (KeyError k) | Some v \<Rightarrow> Inr v)"

definition truediv :: "real \<Rightarrow> real \<Rightarrow> error + real" where
  "truediv a b = (if b = 0 then Inl ZeroDivisionError else Inr (a / b))"

definition then_do :: "error + 'a \<Rightarrow> ('a \<Rightarrow> error + 'b) \<Rightarrow> error + 'b" where
  "then_do m f = (case m of Inl e \<Rightarrow> Inl e | Inr v \<Rightarrow> f v)"

text \<open>
  The process-wide generator of module \<open>random\<close> is the stream of the values that
  \<open>random.random()\<close> will return, each in the unit interval.
  \<open>random.uniform(a, b)\<close> is \<open>a + (b - a) * random()\<close> and moves the stream on
  by one.
\<close>

type_synonym rng = "real stream"

definition uniform :: "real \<Rightarrow> real \<Rightarrow> rng \<Rightarrow> real \<times> rng" where
  "uniform a b g = (a + (b - a) * shd g, stl g)"

definition unit_draws :: "rng \<Rightarrow> bool" where
  "unit_draws g = (\<forall>u \<in> sset g. 0 \<le> u \<and> u \<le> 1)"

section \<open>config.py\<close>

text \<open>
  The module \<open>config\<close> is a namespace of constants that the other modules read
  as \<open>config.NAME\<close> at each use. The namespace is a record passed to every
  function; \<open>config\<close> is the one the repository ships.
\<close>

record parameters =
  AIR_DENSITY :: real
  ROTOR_RADIUS :: real
  ROTOR_AREA :: real
  RATED_POWER :: real
  EFFICIENCY :: real
  CUT_IN_WIND :: real
  RATED_WIND :: real
  CUT_OUT_WIND :: real
  MAX_RPM :: real
  MIN_RPM :: real
  MIN_PITCH :: real
  MAX_PITCH :: real
  CP_MAX :: real
  CP_NOMINAL :: real
  GEN_TEMP_WARN :: real
  GEN_TEMP_CRIT :: real
  GB_TEMP_WARN :: real
  GB_TEMP_CRIT :: real
  VIB_WARN :: real
  VIB_CRIT :: real

definition config :: parameters where
  "config = \<lparr>
     AIR_DENSITY = 1.225,
     ROTOR_RADIUS = 40,
     ROTOR_AREA = 3.1416 * 40 ^ 2,
     RATED_POWER = 2000000,
     EFFICIENCY = 0.92,
     CUT_IN_WIND = 3,
     RATED_WIND = 12,
     CUT_OUT_WIND = 25,
     MAX_RPM = 18,
     MIN_RPM = 3,
     MIN_PITCH = 0,
     MAX_PITCH = 25,
     CP_MAX = 0.59,
     CP_NOMINAL = 0.45,
     GEN_TEMP_WARN = 85,
     GEN_TEMP_CRIT = 95,
     GB_TEMP_WARN = 90,
     GB_TEMP_CRIT = 100,
     VIB_WARN = 6,
     VIB_CRIT = 10 \<rparr>"

section \<open>scada\_simulator.py\<close>

definition initialize_state :: snapshot where
  "initialize_state =
     [''wind_speed'' \<mapsto> 8, ''rpm'' \<mapsto> 8, ''pitch'' \<mapsto> 2, ''power'' \<mapsto> 0,
      ''gen_temp'' \<mapsto> 40, ''gb_temp'' \<mapsto> 45, ''vibration'' \<mapsto> 2.5]"

text \<open>
  The seven numbered parts of \<open>step\<close>, each a function of the values computed
  before it. Subscripts and divisions are evaluated in Python's order, left to
  right, so the first fault met is the one returned.
\<close>

definition step_wind :: "snapshot \<Rightarrow> rng \<Rightarrow> error + (real \<times> rng)" where
  "step_wind state g =
     (let (wind_noise, g1) = uniform (- 0.2) 0.2 g;
          (wind_drift, g2) = uniform (- 0.02) 0.02 g1
      in then_do (getitem state ''wind_speed'') (\<lambda>ws.
           Inr (max 0 (ws + wind_noise + wind_drift), g2)))"

definition step_rpm :: "parameters \<Rightarrow> real \<Rightarrow> real" where
  "step_rpm cfg wind =
     (let rpm = (if wind < RATED_WIND cfg then min (MAX_RPM cfg) (1.5 * wind)
                 else MAX_RPM cfg)
      in max (MIN_RPM cfg) rpm)"

definition step_pitch :: "parameters \<Rightarrow> snapshot \<Rightarrow> real \<Rightarrow> rng \<Rightarrow> error + (real \<times> rng)" where
  "step_pitch cfg state wind g =
     (if wind \<le> RATED_WIND cfg
      then (let (u, g') = uniform 0 0.3 g in Inr (MIN_PITCH cfg + u, g'))
      else then_do (getitem state ''pitch'') (\<lambda>p.
             let (u, g') = uniform 0.1 0.3 g in Inr (min (MAX_PITCH cfg) (p + u), g')))"

definition step_power :: "parameters \<Rightarrow> real \<Rightarrow> real" where
  "step_power cfg wind =
     (if wind < CUT_IN_WIND cfg then 0
      else (let p_wind = 0.5 * AIR_DENSITY cfg * ROTOR_AREA cfg * wind ^ 3
            in min (RATED_POWER cfg) (EFFICIENCY cfg * 0.4 * p_wind)))"

definition step_gen_temp :: "parameters \<Rightarrow> snapshot \<Rightarrow> real \<Rightarrow> error + real" where
  "step_gen_temp cfg state power' =
     then_do (getitem state ''gen_temp'') (\<lambda>t.
     then_do (truediv power' (RATED_POWER cfg)) (\<lambda>frac.
       Inr (t + 0.01 * (frac * 80 - t))))"

definition step_gb_temp :: "parameters \<Rightarrow> snapshot \<Rightarrow> real \<Rightarrow> real \<Rightarrow> error + real" where
  "step_gb_temp cfg state power' rpm =
     then_do (truediv power' (RATED_POWER cfg)) (\<lambda>pfrac.
     then_do (truediv rpm (MAX_RPM cfg)) (\<lambda>rfrac.
     let gb_load = pfrac + rfrac
     in then_do (getitem state ''gb_temp'') (\<lambda>t.
          Inr (t + 0.008 * (gb_load * 90 - t)))))"

definition step_vib :: "snapshot \<Rightarrow> rng \<Rightarrow> error + (real \<times> rng)" where
  "step_vib state g =
     then_do (getitem state ''vibration'') (\<lambda>v.
       let (u, g') = uniform (- 0.02) 0.02 g in Inr (v + u, g'))"

definition step :: "parameters \<Rightarrow> snapshot \<Rightarrow> rng \<Rightarrow> error + (snapshot \<times> rng)" where
  "step cfg state g =
     then_do (step_wind state g) (\<lambda>(wind, g2).
     let rpm = step_rpm cfg wind
     in then_do (step_pitch cfg state wind g2) (\<lambda>(pitch, g3).
     let power' = step_power cfg wind
     in then_do (step_gen_temp cfg state power') (\<lambda>gen_temp.
     then_do (step_gb_temp cfg state power' rpm) (\<lambda>gb_temp.
     then_do (step_vib state g3) (\<lambda>(vib, g4).
       Inr ([''wind_speed'' \<mapsto> wind, ''rpm'' \<mapsto> rpm, ''pitch'' \<mapsto> pitch,
             ''power'' \<mapsto> power', ''gen_temp'' \<mapsto> gen_temp, ''gb_temp'' \<mapsto> gb_temp,
             ''vibration'' \<mapsto> max 0.5 vib], g4))))))"

section \<open>dt\_engine.py\<close>

definition compute_physics :: "parameters \<Rightarrow> snapshot \<Rightarrow> error + (string \<rightharpoonup> real)" where
  "compute_physics cfg scada =
     then_do (getitem scada ''wind_speed'') (\<lambda>wind.
     then_do (getitem scada ''rpm'') (\<lambda>rpm.
     then_do (getitem scada ''power'') (\<lambda>power'.
     let omega = 2 * pi * rpm / 60;
         p_wind = (if wind > 0 then 0.5 * AIR_DENSITY cfg * ROTOR_AREA cfg * wind ^ 3 else 0)
     in then_do (if wind > 0.1 then truediv (omega * ROTOR_RADIUS cfg) wind else Inr 0) (\<lambda>tsr.
        then_do (if p_wind > 1
                 then then_do (truediv power' p_wind) (\<lambda>cp. Inr (min cp (CP_MAX cfg)))
                 else Inr 0) (\<lambda>cp.
        then_do (if omega > 0.1 then truediv power' omega else Inr 0) (\<lambda>torque.
          Inr [''omega'' \<mapsto> omega, ''p_wind'' \<mapsto> p_wind, ''tsr'' \<mapsto> tsr,
               ''cp'' \<mapsto> cp, ''torque'' \<mapsto> torque]))))))"

text \<open>
  One threshold channel of \<open>evaluate_health\<close>: the \<open>if\<close>/\<open>elif\<close> that
  overwrites the channel's default entry.
\<close>

definition set_level :: "(string \<rightharpoonup> string) \<Rightarrow> string \<Rightarrow> real \<Rightarrow> real \<Rightarrow> real
    \<Rightarrow> (string \<rightharpoonup> string)" where
  "set_level health channel x crit warn =
     (if x > crit then health(channel \<mapsto> ''CRITICAL'')
      else if x > warn then health(channel \<mapsto> ''WARN'')
      else health)"

definition evaluate_health ::
    "parameters \<Rightarrow> snapshot \<Rightarrow> (string \<rightharpoonup> real) \<Rightarrow> error + (string \<rightharpoonup> string)" where
  "evaluate_health cfg scada dt =
     (let health = [''generator_temp'' \<mapsto> ''OK'', ''gearbox_temp'' \<mapsto> ''OK'',
                    ''vibration'' \<mapsto> ''OK'', ''performance'' \<mapsto> ''OK'']
      in then_do (getitem scada ''gen_temp'') (\<lambda>gen_temp.
         let health = set_level health ''generator_temp'' gen_temp
                        (GEN_TEMP_CRIT cfg) (GEN_TEMP_WARN cfg)
         in then_do (getitem scada ''gb_temp'') (\<lambda>gb_temp.
         let health = set_level health ''gearbox_temp'' gb_temp
                        (GB_TEMP_CRIT cfg) (GB_TEMP_WARN cfg)
         in then_do (getitem scada ''vibration'') (\<lambda>vibration.
         let health = set_level health ''vibration'' vibration
                        (VIB_CRIT cfg) (VIB_WARN cfg)
         in then_do (getitem dt ''cp'') (\<lambda>cp.
            then_do (if cp < 0.25
                     then then_do (getitem scada ''wind_speed'') (\<lambda>wind_speed.
                            Inr (wind_speed > CUT_IN_WIND cfg))
                     else Inr False) (\<lambda>degraded.
              Inr (if degraded then health(''performance'' \<mapsto> ''WARN'') else health)))))))"

section \<open>The driver's stepping loop (dashboard.py)\<close>

text \<open>
  The dashboard keeps one current snapshot, starting from \<open>initialize_state()\<close>,
  and on every tick replaces it by \<open>sim.step\<close> of itself. \<open>simulate cfg n\<close> is
  \<open>n\<close> ticks of that loop; it returns the snapshots produced, oldest first, and
  stops at the first fault.
\<close>

fun simulate :: "parameters \<Rightarrow> nat \<Rightarrow> snapshot \<Rightarrow> rng \<Rightarrow> error + snapshot list" where
  "simulate cfg 0 state g = Inr []"
| "simulate cfg (Suc n) state g =
     then_do (step cfg state g) (\<lambda>(state', g').
     then_do (simulate cfg n state' g') (\<lambda>rest. Inr (state' # rest)))"

section \<open>Double precision in the generator-temperature update\<close>

text \<open>
  Python's floats are IEEE binary64 numbers, and every arithmetic operation returns
  the exact result rounded to the nearest value of the format, ties to the even
  significand. Where a statement depends on that rounding, the operations are
  modelled with it. A finite value of the format is a real \<open>N * 2 powi (e - 52)\<close>
  with \<open>\<bar>N\<bar> < 2 ^ 53\<close> and \<open>- 1022 \<le> e \<le> 1023\<close>; below \<open>2 powi (- 1022)\<close> the
  spacing stays at \<open>2 powi (- 1074)\<close> (subnormal numbers). \<open>round64\<close> rounds a real
  to this grid, \<open>f64\<close> is the result of an operation: \<open>None\<close> when the rounded
  result is beyond the largest finite value, where the format gives an infinity.
\<close>

definition round_even :: "real \<Rightarrow> int" where
  "round_even y =
     (let f = \<lfloor>y\<rfloor>; r = y - of_int f
      in if r < 1 / 2 then f else if 1 / 2 < r then f + 1 else if even f then f else f + 1)"

definition exponent64 :: "real \<Rightarrow> int" where
  "exponent64 x = max \<lfloor>log 2 \<bar>x\<bar>\<rfloor> (- 1022)"

definition ulp64 :: "real \<Rightarrow> real" where
  "ulp64 x = 2 powi (exponent64 x - 52)"

definition round64 :: "real \<Rightarrow> real" where
  "round64 x = sgn x * (of_int (round_even (\<bar>x\<bar> / ulp64 x)) * ulp64 x)"

definition f64 :: "real \<Rightarrow> real option" where
  "f64 x = (if \<bar>round64 x\<bar> < 2 ^ 1024 then Some (round64 x) else None)"

text \<open>The value of the literal \<open>0.01\<close>: the binary64 number nearest to one hundredth.\<close>

definition literal_0_01 :: real where
  "literal_0_01 = 5764607523034235 / 2 ^ 59"



section \<open>Basic facts\<close>

lemma getitem_Some [simp]: "d k = Some v \<Longrightarrow> getitem d k = Inr v"
  by (simp add: getitem_def)

lemma getitem_None [simp]: "d k = None \<Longrightarrow> getitem d k = Inl (KeyError k)"
  by (simp add: getitem_def)

lemma then_do_Inr [simp]: "then_do (Inr v) f = f v"
  by (simp add: then_do_def)

lemma then_do_Inl [simp]: "then_do (Inl e) f = Inl e"
  by (simp add: then_do_def)

lemma truediv_nonzero [simp]: "b \<noteq> 0 \<Longrightarrow> truediv a b = Inr (a / b)"
  by (simp add: truediv_def)

section \<open>Physics derivation\<close>

lemma compute_physics_cp:
  assumes "scada ''wind_speed'' = Some wind" and "scada ''rpm'' = Some rpm"
    and "scada ''power'' = Some pw"
  shows "\<exists>dt. compute_physics cfg scada = Inr dt \<and>
     dt ''cp'' = Some (let p_wind = (if wind > 0
                                      then 0.5 * AIR_DENSITY cfg * ROTOR_AREA cfg * wind ^ 3
                                      else 0)
                       in if p_wind > 1 then min (pw / p_wind) (CP_MAX cfg) else 0)"
  using assms by (auto simp: compute_physics_def Let_def truediv_def)

text \<open>
  Claim C7. \<open>compute_physics\<close> is total at zero wind: on every snapshot whose
  \<open>wind_speed\<close> is 0 (with \<open>rpm\<close> and \<open>power\<close> present) it returns a result,
  not a fault, and the result has available wind power 0, tip-speed ratio 0 and power
  coefficient 0. On the snapshot \<open>{wind_speed: 0, rpm: 0, power: 0}\<close> the result is
  exactly \<open>{omega: 0, p_wind: 0, tsr: 0, cp: 0, torque: 0}\<close>. Neither part depends
  on the values of the parameters.
\<close>

theorem compute_physics_zero_wind:
  "(scada ''wind_speed'' = Some 0 \<and> scada ''rpm'' = Some rpm \<and> scada ''power'' = Some pw \<longrightarrow>
      (\<exists>dt. compute_physics cfg scada = Inr dt \<and> dt ''p_wind'' = Some 0 \<and>
            dt ''tsr'' = Some 0 \<and> dt ''cp'' = Some 0))
   \<and> compute_physics cfg [''wind_speed'' \<mapsto> 0, ''rpm'' \<mapsto> 0, ''power'' \<mapsto> 0]
       = Inr [''omega'' \<mapsto> 0, ''p_wind'' \<mapsto> 0, ''tsr'' \<mapsto> 0, ''cp'' \<mapsto> 0, ''torque'' \<mapsto> 0]"
  by (auto simp: compute_physics_def Let_def truediv_def)

theorem compute_physics_zero_wind_witness:
  "\<exists>dt. compute_physics config [''wind_speed'' \<mapsto> 0, ''rpm'' \<mapsto> 10, ''power'' \<mapsto> 5] = Inr dt \<and>
      dt ''p_wind'' = Some 0 \<and> dt ''tsr'' = Some 0 \<and> dt ''cp'' = Some 0"
  using compute_physics_zero_wind
    [of "[''wind_speed'' \<mapsto> 0, ''rpm'' \<mapsto> 10, ''power'' \<mapsto> 5]" 10 5 config]
  by simp

lemma compute_physics_cp_range:
  assumes "scada ''wind_speed'' = Some wind" and "scada ''rpm'' = Some rpm"
    and "scada ''power'' = Some pw"
  shows "\<exists>dt c. compute_physics config scada = Inr dt \<and> dt ''cp'' = Some c \<and>
           c \<le> CP_MAX config \<and>
           (0 \<le> pw \<longrightarrow> 0 \<le> c) \<and>
           (0 < wind \<and> 1 < 0.5 * AIR_DENSITY config * ROTOR_AREA config * wind ^ 3 \<and>
            0.5 * AIR_DENSITY config * ROTOR_AREA config * wind ^ 3 < pw
              \<longrightarrow> c = CP_MAX config)"
proof -
  define p_wind where
    "p_wind = (if wind > 0 then 0.5 * AIR_DENSITY config * ROTOR_AREA config * wind ^ 3 else 0)"
  define c where "c = (if p_wind > 1 then min (pw / p_wind) (CP_MAX config) else 0)"
  from compute_physics_cp [OF assms, of config]
  obtain dt where dt: "compute_physics config scada = Inr dt" "dt ''cp'' = Some c"
    by (auto simp: c_def p_wind_def Let_def)
  have cpmax: "0 \<le> CP_MAX config" "CP_MAX config < 1"
    by (simp_all add: config_def)
  have upper: "c \<le> CP_MAX config"
    using cpmax by (simp add: c_def)
  have lower: "0 \<le> c" if "0 \<le> pw"
    using that cpmax by (simp add: c_def)
  have cap: "c = CP_MAX config"
    if "0 < wind" "1 < 0.5 * AIR_DENSITY config * ROTOR_AREA config * wind ^ 3"
      "0.5 * AIR_DENSITY config * ROTOR_AREA config * wind ^ 3 < pw"
  proof -
    from that have p: "1 < p_wind" "p_wind < pw"
      by (simp_all add: p_wind_def)
    then have "1 < pw / p_wind"
      by simp
    with cpmax have "CP_MAX config < pw / p_wind"
      by linarith
    then have "min (pw / p_wind) (CP_MAX config) = CP_MAX config"
      by (intro min_absorb2 less_imp_le)
    with p show ?thesis
      by (simp add: c_def)
  qed
  from dt upper lower cap show ?thesis
    by blast
qed

section \<open>Health classification\<close>

lemma set_level_other: "k \<noteq> channel \<Longrightarrow> set_level health channel x crit warn k = health k"
  by (simp add: set_level_def)

lemma set_level_same:
  "set_level health channel x crit warn channel =
     (if x > crit then Some ''CRITICAL'' else if x > warn then Some ''WARN'' else health channel)"
  by (simp add: set_level_def)

lemma evaluate_health_channels:
  assumes "scada ''gen_temp'' = Some tg" and "scada ''gb_temp'' = Some tb"
    and "scada ''vibration'' = Some v" and "scada ''wind_speed'' = Some w"
    and "dt ''cp'' = Some c"
  shows "\<exists>h. evaluate_health cfg scada dt = Inr h \<and>
     h ''generator_temp'' = Some (if tg > GEN_TEMP_CRIT cfg then ''CRITICAL''
                                  else if tg > GEN_TEMP_WARN cfg then ''WARN'' else ''OK'') \<and>
     h ''gearbox_temp'' = Some (if tb > GB_TEMP_CRIT cfg then ''CRITICAL''
                                else if tb > GB_TEMP_WARN cfg then ''WARN'' else ''OK'') \<and>
     h ''vibration'' = Some (if v > VIB_CRIT cfg then ''CRITICAL''
                             else if v > VIB_WARN cfg then ''WARN'' else ''OK'') \<and>
     h ''performance'' = Some (if c < 0.25 \<and> w > CUT_IN_WIND cfg then ''WARN'' else ''OK'')"
proof -
  define h3 where "h3 = set_level (set_level (set_level
            [''generator_temp'' \<mapsto> ''OK'', ''gearbox_temp'' \<mapsto> ''OK'',
             ''vibration'' \<mapsto> ''OK'', ''performance'' \<mapsto> ''OK'']
            ''generator_temp'' tg (GEN_TEMP_CRIT cfg) (GEN_TEMP_WARN cfg))
            ''gearbox_temp'' tb (GB_TEMP_CRIT cfg) (GB_TEMP_WARN cfg))
            ''vibration'' v (VIB_CRIT cfg) (VIB_WARN cfg)"
  define h where
    "h = (if c < 0.25 \<and> w > CUT_IN_WIND cfg then h3(''performance'' \<mapsto> ''WARN'') else h3)"
  have ret: "evaluate_health cfg scada dt = Inr h"
  proof (cases "c < 0.25")
    case True
    with assms show ?thesis
      by (simp add: evaluate_health_def Let_def h_def h3_def split del: if_split cong: if_cong)
  next
    case False
    with assms show ?thesis
      by (simp add: evaluate_health_def Let_def h_def h3_def split del: if_split cong: if_cong)
  qed
  have gen: "h3 ''generator_temp'' = Some (if tg > GEN_TEMP_CRIT cfg then ''CRITICAL''
                                  else if tg > GEN_TEMP_WARN cfg then ''WARN'' else ''OK'')"
    by (simp add: h3_def set_level_other set_level_same)
  have gb: "h3 ''gearbox_temp'' = Some (if tb > GB_TEMP_CRIT cfg then ''CRITICAL''
                                else if tb > GB_TEMP_WARN cfg then ''WARN'' else ''OK'')"
    by (simp add: h3_def set_level_other set_level_same)
  have vib: "h3 ''vibration'' = Some (if v > VIB_CRIT cfg then ''CRITICAL''
                             else if v > VIB_WARN cfg then ''WARN'' else ''OK'')"
    by (simp add: h3_def set_level_other set_level_same)
  have perf: "h3 ''performance'' = Some ''OK''"
    by (simp add: h3_def set_level_other)
  have others: "h ''generator_temp'' = h3 ''generator_temp''"
    "h ''gearbox_temp'' = h3 ''gearbox_temp''" "h ''vibration'' = h3 ''vibration''"
    by (simp_all add: h_def)
  have "h ''performance'' = Some (if c < 0.25 \<and> w > CUT_IN_WIND cfg then ''WARN'' else ''OK'')"
    using perf by (simp add: h_def)
  with ret gen gb vib others show ?thesis
    by metis
qed

lemma level_iff:
  fixes x crit warn :: real
  assumes "warn < crit"
    and "l = Some (if x > crit then ''CRITICAL'' else if x > warn then ''WARN'' else ''OK'')"
  shows "(l = Some ''CRITICAL'' \<longleftrightarrow> x > crit) \<and>
         (l = Some ''WARN'' \<longleftrightarrow> warn < x \<and> x \<le> crit) \<and>
         (l = Some ''OK'' \<longleftrightarrow> x \<le> warn)"
proof -
  consider "x > crit" | "warn < x" "x \<le> crit" | "x \<le> warn"
    by linarith
  then show ?thesis
  proof cases
    case 1
    with assms show ?thesis by simp
  next
    case 2
    with assms show ?thesis by simp
  next
    case 3
    with assms show ?thesis by simp
  qed
qed

lemma scenario_b:
  assumes "dt ''cp'' = Some c" and "c \<ge> 0.25"
  shows "evaluate_health config
          [''gen_temp'' \<mapsto> 96, ''gb_temp'' \<mapsto> 70, ''vibration'' \<mapsto> 2, ''wind_speed'' \<mapsto> 8] dt
        = Inr [''generator_temp'' \<mapsto> ''CRITICAL'', ''gearbox_temp'' \<mapsto> ''OK'',
               ''vibration'' \<mapsto> ''OK'', ''performance'' \<mapsto> ''OK'']"
proof -
  have "evaluate_health config
          [''gen_temp'' \<mapsto> 96, ''gb_temp'' \<mapsto> 70, ''vibration'' \<mapsto> 2, ''wind_speed'' \<mapsto> 8] dt
        = Inr ([''generator_temp'' \<mapsto> ''OK'', ''gearbox_temp'' \<mapsto> ''OK'',
               ''vibration'' \<mapsto> ''OK'', ''performance'' \<mapsto> ''OK''](''generator_temp'' \<mapsto> ''CRITICAL''))"
    using assms by (simp add: evaluate_health_def Let_def set_level_def config_def)
  also have "[''generator_temp'' \<mapsto> ''OK'', ''gearbox_temp'' \<mapsto> ''OK'',
         ''vibration'' \<mapsto> ''OK'', ''performance'' \<mapsto> ''OK''](''generator_temp'' \<mapsto> ''CRITICAL'')
       = [''generator_temp'' \<mapsto> ''CRITICAL'', ''gearbox_temp'' \<mapsto> ''OK'',
          ''vibration'' \<mapsto> ''OK'', ''performance'' \<mapsto> ''OK'']"
    by (rule ext) simp
  finally show ?thesis .
qed

text \<open>
  Claim C4. On a snapshot that has the fields \<open>evaluate_health\<close> reads and a
  physics record with \<open>cp\<close>, \<open>evaluate_health\<close> returns a health record whose
  performance channel is WARN exactly when \<open>cp < 0.25\<close> and
  \<open>wind_speed > CUT_IN_WIND\<close>, and OK otherwise; it is never CRITICAL; and with
  \<open>wind_speed = 2\<close> and \<open>cp = 0\<close> it is OK.
\<close>

theorem evaluate_health_performance:
  assumes "scada ''gen_temp'' = Some tg" and "scada ''gb_temp'' = Some tb"
    and "scada ''vibration'' = Some v" and "scada ''wind_speed'' = Some w"
    and "dt ''cp'' = Some c"
  shows "\<exists>h. evaluate_health config scada dt = Inr h \<and>
     (h ''performance'' = Some ''WARN'' \<longleftrightarrow> c < 0.25 \<and> w > CUT_IN_WIND config) \<and>
     (h ''performance'' = Some ''OK'' \<longleftrightarrow> \<not> (c < 0.25 \<and> w > CUT_IN_WIND config)) \<and>
     h ''performance'' \<noteq> Some ''CRITICAL'' \<and>
     (w = 2 \<and> c = 0 \<longrightarrow> h ''performance'' = Some ''OK'')"
proof -
  from assms evaluate_health_channels [of scada tg tb v w dt c config]
  obtain h where h: "evaluate_health config scada dt = Inr h"
    "h ''performance'' = Some (if c < 0.25 \<and> w > CUT_IN_WIND config then ''WARN'' else ''OK'')"
    by blast
  have "CUT_IN_WIND config = 3"
    by (simp add: config_def)
  with h show ?thesis
    by auto
qed

theorem evaluate_health_performance_witness:
  "\<exists>h. evaluate_health config
          [''wind_speed'' \<mapsto> 2, ''power'' \<mapsto> 0, ''gen_temp'' \<mapsto> 40, ''gb_temp'' \<mapsto> 45,
           ''vibration'' \<mapsto> 2.5] [''cp'' \<mapsto> 0] = Inr h \<and>
        h ''performance'' = Some ''OK''"
  using evaluate_health_performance
    [of "[''wind_speed'' \<mapsto> 2, ''power'' \<mapsto> 0, ''gen_temp'' \<mapsto> 40, ''gb_temp'' \<mapsto> 45,
          ''vibration'' \<mapsto> 2.5]" 40 45 "2.5" 2 "[''cp'' \<mapsto> 0]" 0]
  by auto

text \<open>
  Claim C6. On a snapshot that has the fields \<open>evaluate_health\<close> reads, each of the
  three threshold channels is CRITICAL iff its reading is above the critical
  threshold, WARN iff it is above the warning threshold and not above the critical
  one, and OK iff it is not above the warning threshold; each channel is a function
  of its own reading only. The snapshot
  \<open>{gen_temp: 96, gb_temp: 70, vibration: 2, wind_speed: 8}\<close> with any physics
  whose \<open>cp\<close> is at least 0.25 gives exactly
  \<open>{generator_temp: CRITICAL, gearbox_temp: OK, vibration: OK, performance: OK}\<close>.
\<close>

theorem evaluate_health_thresholds:
  "(scada ''gen_temp'' = Some tg \<and> scada ''gb_temp'' = Some tb \<and>
    scada ''vibration'' = Some v \<and> scada ''wind_speed'' = Some w \<and> dt ''cp'' = Some c \<longrightarrow>
    (\<exists>h. evaluate_health config scada dt = Inr h \<and>
       (h ''generator_temp'' = Some ''CRITICAL'' \<longleftrightarrow> tg > GEN_TEMP_CRIT config) \<and>
       (h ''generator_temp'' = Some ''WARN'' \<longleftrightarrow>
          GEN_TEMP_WARN config < tg \<and> tg \<le> GEN_TEMP_CRIT config) \<and>
       (h ''generator_temp'' = Some ''OK'' \<longleftrightarrow> tg \<le> GEN_TEMP_WARN config) \<and>
       (h ''gearbox_temp'' = Some ''CRITICAL'' \<longleftrightarrow> tb > GB_TEMP_CRIT config) \<and>
       (h ''gearbox_temp'' = Some ''WARN'' \<longleftrightarrow>
          GB_TEMP_WARN config < tb \<and> tb \<le> GB_TEMP_CRIT config) \<and>
       (h ''gearbox_temp'' = Some ''OK'' \<longleftrightarrow> tb \<le> GB_TEMP_WARN config) \<and>
       (h ''vibration'' = Some ''CRITICAL'' \<longleftrightarrow> v > VIB_CRIT config) \<and>
       (h ''vibration'' = Some ''WARN'' \<longleftrightarrow> VIB_WARN config < v \<and> v \<le> VIB_CRIT config) \<and>
       (h ''vibration'' = Some ''OK'' \<longleftrightarrow> v \<le> VIB_WARN config)))
   \<and> (dt ''cp'' = Some c \<and> c \<ge> 0.25 \<longrightarrow>
        evaluate_health config
          [''gen_temp'' \<mapsto> 96, ''gb_temp'' \<mapsto> 70, ''vibration'' \<mapsto> 2, ''wind_speed'' \<mapsto> 8] dt
        = Inr [''generator_temp'' \<mapsto> ''CRITICAL'', ''gearbox_temp'' \<mapsto> ''OK'',
               ''vibration'' \<mapsto> ''OK'', ''performance'' \<mapsto> ''OK''])"
proof (intro conjI impI)
  assume a: "scada ''gen_temp'' = Some tg \<and> scada ''gb_temp'' = Some tb \<and>
    scada ''vibration'' = Some v \<and> scada ''wind_speed'' = Some w \<and> dt ''cp'' = Some c"
  then obtain h where ret: "evaluate_health config scada dt = Inr h"
    and gen: "h ''generator_temp'' = Some (if tg > GEN_TEMP_CRIT config then ''CRITICAL''
                else if tg > GEN_TEMP_WARN config then ''WARN'' else ''OK'')"
    and gb: "h ''gearbox_temp'' = Some (if tb > GB_TEMP_CRIT config then ''CRITICAL''
                else if tb > GB_TEMP_WARN config then ''WARN'' else ''OK'')"
    and vib: "h ''vibration'' = Some (if v > VIB_CRIT config then ''CRITICAL''
                else if v > VIB_WARN config then ''WARN'' else ''OK'')"
    using evaluate_health_channels [of scada tg tb v w dt c config] by blast
  have order: "GEN_TEMP_WARN config < GEN_TEMP_CRIT config"
    "GB_TEMP_WARN config < GB_TEMP_CRIT config" "VIB_WARN config < VIB_CRIT config"
    by (simp_all add: config_def)
  note level_iff [OF order(1) gen] level_iff [OF order(2) gb] level_iff [OF order(3) vib]
  with ret show "\<exists>h. evaluate_health config scada dt = Inr h \<and>
       (h ''generator_temp'' = Some ''CRITICAL'' \<longleftrightarrow> tg > GEN_TEMP_CRIT config) \<and>
       (h ''generator_temp'' = Some ''WARN'' \<longleftrightarrow>
          GEN_TEMP_WARN config < tg \<and> tg \<le> GEN_TEMP_CRIT config) \<and>
       (h ''generator_temp'' = Some ''OK'' \<longleftrightarrow> tg \<le> GEN_TEMP_WARN config) \<and>
       (h ''gearbox_temp'' = Some ''CRITICAL'' \<longleftrightarrow> tb > GB_TEMP_CRIT config) \<and>
       (h ''gearbox_temp'' = Some ''WARN'' \<longleftrightarrow>
          GB_TEMP_WARN config < tb \<and> tb \<le> GB_TEMP_CRIT config) \<and>
       (h ''gearbox_temp'' = Some ''OK'' \<longleftrightarrow> tb \<le> GB_TEMP_WARN config) \<and>
       (h ''vibration'' = Some ''CRITICAL'' \<longleftrightarrow> v > VIB_CRIT config) \<and>
       (h ''vibration'' = Some ''WARN'' \<longleftrightarrow> VIB_WARN config < v \<and> v \<le> VIB_CRIT config) \<and>
       (h ''vibration'' = Some ''OK'' \<longleftrightarrow> v \<le> VIB_WARN config)"
    by (intro exI [of _ h]) (simp only: simp_thms)
next
  assume "dt ''cp'' = Some c \<and> c \<ge> 0.25"
  then show "evaluate_health config
          [''gen_temp'' \<mapsto> 96, ''gb_temp'' \<mapsto> 70, ''vibration'' \<mapsto> 2, ''wind_speed'' \<mapsto> 8] dt
        = Inr [''generator_temp'' \<mapsto> ''CRITICAL'', ''gearbox_temp'' \<mapsto> ''OK'',
               ''vibration'' \<mapsto> ''OK'', ''performance'' \<mapsto> ''OK'']"
    using scenario_b [of dt c] by blast
qed

theorem evaluate_health_thresholds_witness:
  "\<exists>h. evaluate_health config
          [''gen_temp'' \<mapsto> 90, ''gb_temp'' \<mapsto> 101, ''vibration'' \<mapsto> 2, ''wind_speed'' \<mapsto> 8]
          [''cp'' \<mapsto> 0.4] = Inr h \<and>
        h ''generator_temp'' = Some ''WARN'' \<and> h ''gearbox_temp'' = Some ''CRITICAL'' \<and>
        h ''vibration'' = Some ''OK''"
proof -
  have "GEN_TEMP_WARN config < 90 \<and> 90 \<le> GEN_TEMP_CRIT config \<and> 101 > GB_TEMP_CRIT config \<and>
        2 \<le> VIB_WARN config"
    by (simp add: config_def)
  with evaluate_health_thresholds
    [of "[''gen_temp'' \<mapsto> 90, ''gb_temp'' \<mapsto> 101, ''vibration'' \<mapsto> 2, ''wind_speed'' \<mapsto> 8]"
        90 101 2 8 "[''cp'' \<mapsto> 0.4]" "0.4"]
  show ?thesis
    by auto
qed

section \<open>One step of the simulator\<close>

lemma snd_uniform [simp]: "snd (uniform a b g) = stl g"
  by (simp add: uniform_def)

lemma uniform_range:
  assumes "0 \<le> shd g" and "shd g \<le> 1" and "a \<le> b"
  shows "a \<le> fst (uniform a b g)" and "fst (uniform a b g) \<le> b"
proof -
  from assms have "0 \<le> (b - a) * shd g"
    by simp
  then show "a \<le> fst (uniform a b g)"
    by (simp add: uniform_def)
  from assms have "(b - a) * shd g \<le> (b - a) * 1"
    by (intro mult_left_mono) simp_all
  then show "fst (uniform a b g) \<le> b"
    by (simp add: uniform_def)
qed

lemma unit_draws_shd: "unit_draws g \<Longrightarrow> 0 \<le> shd g \<and> shd g \<le> 1"
  by (simp add: unit_draws_def shd_sset)

lemma unit_draws_stl: "unit_draws g \<Longrightarrow> unit_draws (stl g)"
  by (auto simp: unit_draws_def dest: stl_sset)

text \<open>The snapshot that \<open>step\<close> returns, field by field.\<close>

lemma step_result:
  assumes "state ''wind_speed'' = Some ws" and "state ''pitch'' = Some p"
    and "state ''gen_temp'' = Some tg" and "state ''gb_temp'' = Some tb"
    and "state ''vibration'' = Some v"
    and "RATED_POWER cfg \<noteq> 0" and "MAX_RPM cfg \<noteq> 0"
    and "wind = max 0 (ws + fst (uniform (- 0.2) 0.2 g)
                          + fst (uniform (- 0.02) 0.02 (stl g)))"
  shows "step cfg state g = Inr
     ([''wind_speed'' \<mapsto> wind,
       ''rpm'' \<mapsto> step_rpm cfg wind,
       ''pitch'' \<mapsto> (if wind \<le> RATED_WIND cfg
                     then MIN_PITCH cfg + fst (uniform 0 0.3 (stl (stl g)))
                     else min (MAX_PITCH cfg) (p + fst (uniform 0.1 0.3 (stl (stl g))))),
       ''power'' \<mapsto> step_power cfg wind,
       ''gen_temp'' \<mapsto> tg + 0.01 * (step_power cfg wind / RATED_POWER cfg * 80 - tg),
       ''gb_temp'' \<mapsto> tb + 0.008 * ((step_power cfg wind / RATED_POWER cfg
                                      + step_rpm cfg wind / MAX_RPM cfg) * 90 - tb),
       ''vibration'' \<mapsto> max 0.5 (v + fst (uniform (- 0.02) 0.02 (stl (stl (stl g)))))],
      stl (stl (stl (stl g))))"
proof -
  have w: "step_wind state g = Inr (wind, stl (stl g))"
    using assms by (simp add: step_wind_def case_prod_beta)
  have pt: "step_pitch cfg state wind (stl (stl g)) =
      Inr (if wind \<le> RATED_WIND cfg
           then MIN_PITCH cfg + fst (uniform 0 0.3 (stl (stl g)))
           else min (MAX_PITCH cfg) (p + fst (uniform 0.1 0.3 (stl (stl g)))),
           stl (stl (stl g)))"
    using assms by (simp add: step_pitch_def case_prod_beta)
  have gt: "step_gen_temp cfg state (step_power cfg wind) =
      Inr (tg + 0.01 * (step_power cfg wind / RATED_POWER cfg * 80 - tg))"
    using assms by (simp add: step_gen_temp_def)
  have bt: "step_gb_temp cfg state (step_power cfg wind) (step_rpm cfg wind) =
      Inr (tb + 0.008 * ((step_power cfg wind / RATED_POWER cfg
                          + step_rpm cfg wind / MAX_RPM cfg) * 90 - tb))"
    using assms by (simp add: step_gb_temp_def)
  have vb: "step_vib state (stl (stl (stl g))) =
      Inr (v + fst (uniform (- 0.02) 0.02 (stl (stl (stl g)))), stl (stl (stl (stl g))))"
    using assms by (simp add: step_vib_def case_prod_beta)
  show ?thesis
    unfolding step_def w then_do_Inr prod.case Let_def pt gt bt vb ..
qed


lemma config_nonzero: "RATED_POWER config \<noteq> 0" "MAX_RPM config \<noteq> 0"
  by (simp_all add: config_def)

lemma step_rpm_bounds:
  "MIN_RPM config \<le> step_rpm config wind" "step_rpm config wind \<le> MAX_RPM config"
  by (simp_all add: step_rpm_def config_def)

lemma step_power_bounds:
  assumes "0 \<le> wind"
  shows "0 \<le> step_power config wind" and "step_power config wind \<le> RATED_POWER config"
proof -
  from assms have "0 \<le> wind ^ 3"
    by simp
  then show "0 \<le> step_power config wind"
    by (simp add: step_power_def config_def)
  show "step_power config wind \<le> RATED_POWER config"
    by (simp add: step_power_def config_def)
qed

text \<open>
  Claim C1. If the previous snapshot has its seven fields, with \<open>rpm\<close>,
  \<open>pitch\<close>, \<open>power\<close>, \<open>wind_speed\<close> and \<open>vibration\<close> inside their
  declared ranges, and every value drawn from the generator lies in the unit
  interval (so each \<open>uniform(a, b)\<close> lies between \<open>a\<close> and \<open>b\<close>), then
  \<open>step\<close> returns a snapshot, and that snapshot satisfies the same bounds.
\<close>

theorem step_preserves_bounds:
  assumes "state ''wind_speed'' = Some ws" and "state ''rpm'' = Some r"
    and "state ''pitch'' = Some p" and "state ''power'' = Some pw"
    and "state ''gen_temp'' = Some tg" and "state ''gb_temp'' = Some tb"
    and "state ''vibration'' = Some v"
    and "MIN_RPM config \<le> r" and "r \<le> MAX_RPM config"
    and "MIN_PITCH config \<le> p" and "p \<le> MAX_PITCH config"
    and "0 \<le> pw" and "pw \<le> RATED_POWER config"
    and "0 \<le> ws" and "0.5 \<le> v"
    and "unit_draws g"
  shows "\<exists>state' g' ws' r' p' pw' v'. step config state g = Inr (state', g') \<and>
     state' ''wind_speed'' = Some ws' \<and> state' ''rpm'' = Some r' \<and>
     state' ''pitch'' = Some p' \<and> state' ''power'' = Some pw' \<and>
     state' ''vibration'' = Some v' \<and>
     MIN_RPM config \<le> r' \<and> r' \<le> MAX_RPM config \<and>
     MIN_PITCH config \<le> p' \<and> p' \<le> MAX_PITCH config \<and>
     0 \<le> pw' \<and> pw' \<le> RATED_POWER config \<and>
     0 \<le> ws' \<and> 0.5 \<le> v'"
proof -
  define wind where "wind = max 0 (ws + fst (uniform (- 0.2) 0.2 g)
                                     + fst (uniform (- 0.02) 0.02 (stl g)))"
  define u3 where "u3 = shd (stl (stl g))"
  define pitch' where "pitch' = (if wind \<le> RATED_WIND config
                     then MIN_PITCH config + fst (uniform 0 0.3 (stl (stl g)))
                     else min (MAX_PITCH config) (p + fst (uniform 0.1 0.3 (stl (stl g)))))"
  define vib' where "vib' = max 0.5 (v + fst (uniform (- 0.02) 0.02 (stl (stl (stl g)))))"
  note res = step_result [OF assms(1,3,5,6,7) config_nonzero wind_def]
  have wind: "0 \<le> wind"
    by (simp add: wind_def)
  from \<open>unit_draws g\<close> have "unit_draws (stl (stl g))"
    by (intro unit_draws_stl)
  then have u: "0 \<le> shd (stl (stl g)) \<and> shd (stl (stl g)) \<le> 1"
    by (rule unit_draws_shd)
  have lo: "0 \<le> fst (uniform 0 0.3 (stl (stl g)))" "fst (uniform 0 0.3 (stl (stl g))) \<le> 0.3"
    using uniform_range [of "stl (stl g)" 0 "0.3"] u by simp_all
  have hi: "0.1 \<le> fst (uniform 0.1 0.3 (stl (stl g)))"
    using uniform_range [of "stl (stl g)" "0.1" "0.3"] u by simp
  have pitch_lo: "MIN_PITCH config \<le> pitch'"
  proof (cases "wind \<le> RATED_WIND config")
    case True
    with lo show ?thesis
      by (simp add: pitch'_def)
  next
    case False
    have "MIN_PITCH config \<le> MAX_PITCH config"
      by (simp add: config_def)
    moreover from hi \<open>MIN_PITCH config \<le> p\<close>
    have "MIN_PITCH config \<le> p + fst (uniform 0.1 0.3 (stl (stl g)))"
      by linarith
    ultimately show ?thesis
      using False by (simp add: pitch'_def)
  qed
  have pitch_hi: "pitch' \<le> MAX_PITCH config"
  proof (cases "wind \<le> RATED_WIND config")
    case True
    have "MIN_PITCH config + 0.3 \<le> MAX_PITCH config"
      by (simp add: config_def)
    with lo True show ?thesis
      by (simp add: pitch'_def)
  next
    case False
    then show ?thesis
      by (simp add: pitch'_def)
  qed
  have vib: "0.5 \<le> vib'"
    by (simp add: vib'_def)
  define state' where "state' =
      [''wind_speed'' \<mapsto> wind, ''rpm'' \<mapsto> step_rpm config wind, ''pitch'' \<mapsto> pitch',
       ''power'' \<mapsto> step_power config wind,
       ''gen_temp'' \<mapsto> tg + 0.01 * (step_power config wind / RATED_POWER config * 80 - tg),
       ''gb_temp'' \<mapsto> tb + 0.008 * ((step_power config wind / RATED_POWER config
                                      + step_rpm config wind / MAX_RPM config) * 90 - tb),
       ''vibration'' \<mapsto> vib']"
  have ret: "step config state g = Inr (state', stl (stl (stl (stl g))))"
    unfolding res state'_def pitch'_def vib'_def ..
  have fields: "state' ''wind_speed'' = Some wind" "state' ''rpm'' = Some (step_rpm config wind)"
    "state' ''pitch'' = Some pitch'" "state' ''power'' = Some (step_power config wind)"
    "state' ''vibration'' = Some vib'"
    by (simp_all add: state'_def)
  from ret fields wind step_rpm_bounds [of wind] step_power_bounds [OF wind] pitch_lo pitch_hi vib
  show ?thesis
    by blast
qed

theorem step_preserves_bounds_witness:
  "\<exists>state' g' ws' r' p' pw' v'.
     step config initialize_state (sconst (1 / 2)) = Inr (state', g') \<and>
     state' ''wind_speed'' = Some ws' \<and> state' ''rpm'' = Some r' \<and>
     state' ''pitch'' = Some p' \<and> state' ''power'' = Some pw' \<and>
     state' ''vibration'' = Some v' \<and>
     MIN_RPM config \<le> r' \<and> r' \<le> MAX_RPM config \<and>
     MIN_PITCH config \<le> p' \<and> p' \<le> MAX_PITCH config \<and>
     0 \<le> pw' \<and> pw' \<le> RATED_POWER config \<and>
     0 \<le> ws' \<and> 0.5 \<le> v'"
  by (rule step_preserves_bounds [of initialize_state 8 8 2 0 40 45 "2.5" "sconst (1 / 2)"])
    (simp_all add: initialize_state_def config_def unit_draws_def)

text \<open>
  Claim C8. On a previous snapshot that has the fields \<open>step\<close> reads, and for every
  state of the generator, \<open>step\<close> returns a snapshot whose \<open>rpm\<close> is
  \<open>max(MIN_RPM, min(MAX_RPM, 1.5 * w))\<close> when its new wind speed \<open>w\<close> is strictly
  below \<open>RATED_WIND\<close>, and \<open>MAX_RPM\<close> when \<open>w\<close> is at or above
  \<open>RATED_WIND\<close>. Replacing or removing the previous snapshot's \<open>rpm\<close> changes
  nothing in the result.
\<close>

theorem step_rpm_control_law:
  assumes "state ''wind_speed'' = Some ws" and "state ''pitch'' = Some p"
    and "state ''gen_temp'' = Some tg" and "state ''gb_temp'' = Some tb"
    and "state ''vibration'' = Some v"
  shows "\<exists>state' g' w. step config state g = Inr (state', g') \<and>
     state' ''wind_speed'' = Some w \<and>
     (w < RATED_WIND config \<longrightarrow>
        state' ''rpm'' = Some (max (MIN_RPM config) (min (MAX_RPM config) (1.5 * w)))) \<and>
     (RATED_WIND config \<le> w \<longrightarrow> state' ''rpm'' = Some (MAX_RPM config)) \<and>
     step config (state(''rpm'' := r)) g = Inr (state', g')"
proof -
  define w where "w = max 0 (ws + fst (uniform (- 0.2) 0.2 g)
                               + fst (uniform (- 0.02) 0.02 (stl g)))"
  note res = step_result [OF assms config_nonzero w_def]
  obtain state' g' where ret: "step config state g = Inr (state', g')"
    and wind: "state' ''wind_speed'' = Some w"
    and rpm: "state' ''rpm'' = Some (step_rpm config w)"
    unfolding res by simp
  have below: "step_rpm config w = max (MIN_RPM config) (min (MAX_RPM config) (1.5 * w))"
    if "w < RATED_WIND config"
    using that by (simp add: step_rpm_def)
  have above: "step_rpm config w = MAX_RPM config" if "RATED_WIND config \<le> w"
  proof -
    have "MIN_RPM config \<le> MAX_RPM config"
      by (simp add: config_def)
    with that show ?thesis
      by (simp add: step_rpm_def)
  qed
  have "step config (state(''rpm'' := r)) g = step config state g"
    unfolding res
    by (rule step_result [OF _ _ _ _ _ config_nonzero w_def]) (simp_all add: assms)
  with ret wind rpm below above show ?thesis
    by (metis (no_types))
qed

theorem step_rpm_control_law_witness:
  "\<exists>state' g'. step config initialize_state (sconst (1 / 2)) = Inr (state', g') \<and>
     state' ''wind_speed'' = Some 8 \<and> state' ''rpm'' = Some 12 \<and>
     step config (initialize_state(''rpm'' := None)) (sconst (1 / 2)) = Inr (state', g')"
proof -
  from step_rpm_control_law [of initialize_state 8 2 40 45 "2.5" "sconst (1 / 2)" None]
  obtain state' g' w where *: "step config initialize_state (sconst (1 / 2)) = Inr (state', g')"
    "state' ''wind_speed'' = Some w"
    "w < RATED_WIND config \<longrightarrow>
        state' ''rpm'' = Some (max (MIN_RPM config) (min (MAX_RPM config) (1.5 * w)))"
    "step config (initialize_state(''rpm'' := None)) (sconst (1 / 2)) = Inr (state', g')"
    by (auto simp: initialize_state_def)
  have "fst (projr (step config initialize_state (sconst (1 / 2)))) ''wind_speed'' = Some 8"
    by (subst step_result [of initialize_state 8 2 40 45 "2.5" config 8 "sconst (1 / 2)"])
      (simp_all add: initialize_state_def config_nonzero uniform_def)
  with *(1) have "state' ''wind_speed'' = Some 8"
    by simp
  with *(2) have "w = 8"
    by simp
  with * show ?thesis
    by (simp add: config_def)
qed

text \<open>
  Claim C10. \<open>step\<close> never reads the previous snapshot's \<open>rpm\<close> or \<open>power\<close>:
  two previous snapshots that agree on \<open>wind_speed\<close>, \<open>pitch\<close>, \<open>gen_temp\<close>,
  \<open>gb_temp\<close> and \<open>vibration\<close> (present with the same value, or absent in both)
  give the same result, snapshot and generator state or fault, from the same
  generator state, whatever the parameters.
\<close>

theorem step_ignores_rpm_and_power:
  assumes "s1 ''wind_speed'' = s2 ''wind_speed''" and "s1 ''pitch'' = s2 ''pitch''"
    and "s1 ''gen_temp'' = s2 ''gen_temp''" and "s1 ''gb_temp'' = s2 ''gb_temp''"
    and "s1 ''vibration'' = s2 ''vibration''"
  shows "step cfg s1 g = step cfg s2 g"
proof -
  have wind: "step_wind s1 = step_wind s2"
    using assms(1) by (simp add: step_wind_def getitem_def fun_eq_iff)
  have pitch: "step_pitch cfg s1 = step_pitch cfg s2"
    using assms(2) by (simp add: step_pitch_def getitem_def fun_eq_iff)
  have gen: "step_gen_temp cfg s1 = step_gen_temp cfg s2"
    using assms(3) by (simp add: step_gen_temp_def getitem_def fun_eq_iff)
  have gb: "step_gb_temp cfg s1 = step_gb_temp cfg s2"
    using assms(4) by (simp add: step_gb_temp_def getitem_def fun_eq_iff)
  have vib: "step_vib s1 = step_vib s2"
    using assms(5) by (simp add: step_vib_def getitem_def fun_eq_iff)
  show ?thesis
    unfolding step_def wind pitch gen gb vib ..
qed

theorem step_ignores_rpm_and_power_witness:
  "step config initialize_state (sconst (1 / 2)) =
   step config (initialize_state(''rpm'' \<mapsto> 17, ''power'' \<mapsto> 1500000)) (sconst (1 / 2))"
  by (rule step_ignores_rpm_and_power) (simp_all add: initialize_state_def)

section \<open>Trajectories of the simulator\<close>

lemma step_fields:
  assumes "state ''wind_speed'' = Some ws" and "state ''pitch'' = Some p"
    and "state ''gen_temp'' = Some tg" and "state ''gb_temp'' = Some tb"
    and "state ''vibration'' = Some v"
  shows "\<exists>state' g' ws' r' p' pw' tb' v'. step config state g = Inr (state', g') \<and>
     state' ''wind_speed'' = Some ws' \<and> state' ''rpm'' = Some r' \<and>
     state' ''pitch'' = Some p' \<and> state' ''power'' = Some pw' \<and>
     state' ''gen_temp'' = Some (tg + 0.01 * (pw' / RATED_POWER config * 80 - tg)) \<and>
     state' ''gb_temp'' = Some tb' \<and> state' ''vibration'' = Some v' \<and>
     0 \<le> pw' \<and> pw' \<le> RATED_POWER config"
proof -
  define wind where "wind = max 0 (ws + fst (uniform (- 0.2) 0.2 g)
                                     + fst (uniform (- 0.02) 0.02 (stl g)))"
  have wind: "0 \<le> wind"
    by (simp add: wind_def)
  show ?thesis
    unfolding step_result [OF assms config_nonzero wind_def]
    using step_power_bounds [OF wind] by simp
qed

lemma relax_le:
  fixes t e b :: real
  assumes "t \<le> b" and "e \<le> b"
  shows "t + 0.01 * (e - t) \<le> b"
proof -
  have "t + 0.01 * (e - t) = 0.99 * t + 0.01 * e"
    by (simp add: field_simps)
  also from assms have "\<dots> \<le> 0.99 * b + 0.01 * b"
    by (intro add_mono mult_left_mono) simp_all
  also have "\<dots> = b"
    by simp
  finally show ?thesis .
qed

lemma step_gen_temp_le_80:
  assumes "state ''wind_speed'' = Some ws" and "state ''pitch'' = Some p"
    and "state ''gen_temp'' = Some tg" and "state ''gb_temp'' = Some tb"
    and "state ''vibration'' = Some v" and "tg \<le> 80"
  shows "\<exists>state' g' ws' r' p' pw' tg' tb' v'. step config state g = Inr (state', g') \<and>
     state' ''wind_speed'' = Some ws' \<and> state' ''rpm'' = Some r' \<and>
     state' ''pitch'' = Some p' \<and> state' ''power'' = Some pw' \<and>
     state' ''gen_temp'' = Some tg' \<and> state' ''gb_temp'' = Some tb' \<and>
     state' ''vibration'' = Some v' \<and> tg' \<le> 80"
proof -
  from step_fields [OF assms(1-5), of g]
  obtain state' g' ws' r' p' pw' tb' v' where
    ret: "step config state g = Inr (state', g')"
    and f: "state' ''wind_speed'' = Some ws'" "state' ''rpm'' = Some r'"
      "state' ''pitch'' = Some p'" "state' ''power'' = Some pw'"
      "state' ''gen_temp'' = Some (tg + 0.01 * (pw' / RATED_POWER config * 80 - tg))"
      "state' ''gb_temp'' = Some tb'" "state' ''vibration'' = Some v'"
    and pw: "0 \<le> pw'" "pw' \<le> RATED_POWER config"
    by blast
  have rated: "RATED_POWER config = 2000000"
    by (simp add: config_def)
  from pw have "pw' / RATED_POWER config * 80 \<le> 80"
    by (simp add: rated)
  with \<open>tg \<le> 80\<close> have "tg + 0.01 * (pw' / RATED_POWER config * 80 - tg) \<le> 80"
    by (rule relax_le)
  with ret f show ?thesis
    by blast
qed

lemma simulate_gen_temp_le_80:
  assumes "state ''wind_speed'' = Some ws" and "state ''pitch'' = Some p"
    and "state ''gen_temp'' = Some tg" and "state ''gb_temp'' = Some tb"
    and "state ''vibration'' = Some v" and "tg \<le> 80"
  shows "\<exists>hist. simulate config n state g = Inr hist \<and> length hist = n \<and>
     (\<forall>s \<in> set hist. \<exists>ws' r' p' pw' tg' tb' v'.
        s ''wind_speed'' = Some ws' \<and> s ''rpm'' = Some r' \<and> s ''pitch'' = Some p' \<and>
        s ''power'' = Some pw' \<and> s ''gen_temp'' = Some tg' \<and> s ''gb_temp'' = Some tb' \<and>
        s ''vibration'' = Some v' \<and> tg' \<le> 80)"
  using assms
proof (induction n arbitrary: state g ws p tg tb v)
  case 0
  show ?case
    by simp
next
  case (Suc n)
  from step_gen_temp_le_80 [OF Suc.prems, of g]
  obtain s1 g1 ws1 r1 p1 pw1 tg1 tb1 v1 where
    st: "step config state g = Inr (s1, g1)"
    and f: "s1 ''wind_speed'' = Some ws1" "s1 ''pitch'' = Some p1" "s1 ''gen_temp'' = Some tg1"
      "s1 ''gb_temp'' = Some tb1" "s1 ''vibration'' = Some v1" "tg1 \<le> 80"
    and more: "s1 ''rpm'' = Some r1" "s1 ''power'' = Some pw1"
    by blast
  from Suc.IH [OF f, of g1]
  obtain rest where sim: "simulate config n s1 g1 = Inr rest" and len: "length rest = n"
    and inv: "\<forall>s \<in> set rest. \<exists>ws' r' p' pw' tg' tb' v'.
        s ''wind_speed'' = Some ws' \<and> s ''rpm'' = Some r' \<and> s ''pitch'' = Some p' \<and>
        s ''power'' = Some pw' \<and> s ''gen_temp'' = Some tg' \<and> s ''gb_temp'' = Some tb' \<and>
        s ''vibration'' = Some v' \<and> tg' \<le> 80"
    by blast
  have ret: "simulate config (Suc n) state g = Inr (s1 # rest)"
    by (simp add: st sim)
  from f more have "\<exists>ws' r' p' pw' tg' tb' v'.
        s1 ''wind_speed'' = Some ws' \<and> s1 ''rpm'' = Some r' \<and> s1 ''pitch'' = Some p' \<and>
        s1 ''power'' = Some pw' \<and> s1 ''gen_temp'' = Some tg' \<and> s1 ''gb_temp'' = Some tb' \<and>
        s1 ''vibration'' = Some v' \<and> tg' \<le> 80"
    by blast
  with inv ret len show ?case
    by simp
qed

lemma evaluate_health_no_cp:
  assumes "scada ''gen_temp'' = Some tg" and "scada ''gb_temp'' = Some tb"
    and "scada ''vibration'' = Some v" and "dt ''cp'' = None"
  shows "evaluate_health cfg scada dt = Inl (KeyError ''cp'')"
  using assms by (simp add: evaluate_health_def Let_def)

lemma generator_channel_ok:
  assumes "s ''wind_speed'' = Some ws" and "s ''rpm'' = Some r" and "s ''power'' = Some pw"
    and "s ''gen_temp'' = Some tg" and "s ''gb_temp'' = Some tb"
    and "s ''vibration'' = Some v" and "tg \<le> 80"
  shows "(\<exists>dt h. compute_physics config s = Inr dt \<and> evaluate_health config s dt = Inr h \<and>
            h ''generator_temp'' = Some ''OK'')
       \<and> (\<forall>dt h. evaluate_health config s dt = Inr h \<longrightarrow> h ''generator_temp'' = Some ''OK'')"
proof -
  have thr: "\<not> tg > GEN_TEMP_CRIT config" "\<not> tg > GEN_TEMP_WARN config"
    using \<open>tg \<le> 80\<close> by (simp_all add: config_def)
  have ok: "h ''generator_temp'' = Some ''OK''"
    if "evaluate_health config s dt = Inr h" for dt h
  proof (cases "dt ''cp''")
    case None
    from evaluate_health_no_cp [of s tg tb v dt config] assms None that show ?thesis
      by simp
  next
    case (Some c)
    from evaluate_health_channels [of s tg tb v ws dt c config] assms Some that thr
    show ?thesis
      by auto
  qed
  from compute_physics_cp [of s ws r pw config] assms
  obtain dt c where dt: "compute_physics config s = Inr dt" "dt ''cp'' = Some c"
    by blast
  from evaluate_health_channels [of s tg tb v ws dt c config] assms dt(2)
  obtain h where "evaluate_health config s dt = Inr h"
    by blast
  with dt ok show ?thesis
    by blast
qed


text \<open>
  Claim C9. If the previous snapshot has its fields, its generator temperature is at
  most 80 and its power lies in \<open>[0, RATED_POWER]\<close>, then for every state of the
  generator \<open>step\<close> returns a snapshot whose generator temperature is at most 80.
  Hence the driver's loop started from \<open>initialize_state()\<close> runs for any number of
  steps without fault, and on the initial snapshot and on every snapshot it produces
  the generator temperature is at most 80, so strictly below \<open>GEN_TEMP_WARN\<close>;
  \<open>evaluate_health\<close> on such a snapshot and its \<open>compute_physics\<close> returns a
  health record, and whatever physics record it is given, a health record it returns
  has the generator-temperature channel OK.
\<close>

theorem gen_temp_never_alarms:
  "(state ''wind_speed'' = Some ws \<and> state ''pitch'' = Some p \<and> state ''gen_temp'' = Some tg \<and>
    state ''gb_temp'' = Some tb \<and> state ''vibration'' = Some v \<and> state ''power'' = Some pw \<and>
    tg \<le> 80 \<and> 0 \<le> pw \<and> pw \<le> RATED_POWER config \<longrightarrow>
      (\<exists>state' g' tg'. step config state g = Inr (state', g') \<and>
         state' ''gen_temp'' = Some tg' \<and> tg' \<le> 80))
   \<and> (\<exists>hist. simulate config n initialize_state g = Inr hist \<and> length hist = n \<and>
        (\<forall>s \<in> set (initialize_state # hist).
           \<exists>t. s ''gen_temp'' = Some t \<and> t \<le> 80 \<and> t < GEN_TEMP_WARN config \<and>
             (\<exists>dt h. compute_physics config s = Inr dt \<and> evaluate_health config s dt = Inr h \<and>
                h ''generator_temp'' = Some ''OK'') \<and>
             (\<forall>dt h. evaluate_health config s dt = Inr h \<longrightarrow>
                h ''generator_temp'' = Some ''OK'')))"
proof (intro conjI impI)
  assume a: "state ''wind_speed'' = Some ws \<and> state ''pitch'' = Some p \<and>
    state ''gen_temp'' = Some tg \<and> state ''gb_temp'' = Some tb \<and> state ''vibration'' = Some v \<and>
    state ''power'' = Some pw \<and> tg \<le> 80 \<and> 0 \<le> pw \<and> pw \<le> RATED_POWER config"
  with step_gen_temp_le_80 [of state ws p tg tb v g]
  show "\<exists>state' g' tg'. step config state g = Inr (state', g') \<and>
         state' ''gen_temp'' = Some tg' \<and> tg' \<le> 80"
    by blast
next
  have init: "initialize_state ''wind_speed'' = Some 8" "initialize_state ''rpm'' = Some 8"
    "initialize_state ''pitch'' = Some 2" "initialize_state ''power'' = Some 0"
    "initialize_state ''gen_temp'' = Some 40" "initialize_state ''gb_temp'' = Some 45"
    "initialize_state ''vibration'' = Some 2.5"
    by (simp_all add: initialize_state_def)
  have warn: "GEN_TEMP_WARN config = 85"
    by (simp add: config_def)
  from simulate_gen_temp_le_80 [of initialize_state 8 2 40 45 "2.5" n g] init
  obtain hist where sim: "simulate config n initialize_state g = Inr hist"
    and len: "length hist = n"
    and inv: "\<forall>s \<in> set hist. \<exists>ws' r' p' pw' tg' tb' v'.
        s ''wind_speed'' = Some ws' \<and> s ''rpm'' = Some r' \<and> s ''pitch'' = Some p' \<and>
        s ''power'' = Some pw' \<and> s ''gen_temp'' = Some tg' \<and> s ''gb_temp'' = Some tb' \<and>
        s ''vibration'' = Some v' \<and> tg' \<le> 80"
    by auto
  have "\<exists>t. s ''gen_temp'' = Some t \<and> t \<le> 80 \<and> t < GEN_TEMP_WARN config \<and>
             (\<exists>dt h. compute_physics config s = Inr dt \<and> evaluate_health config s dt = Inr h \<and>
                h ''generator_temp'' = Some ''OK'') \<and>
             (\<forall>dt h. evaluate_health config s dt = Inr h \<longrightarrow>
                h ''generator_temp'' = Some ''OK'')"
    if "s \<in> set (initialize_state # hist)" for s
  proof -
    from that inv init have "\<exists>ws' r' p' pw' tg' tb' v'.
        s ''wind_speed'' = Some ws' \<and> s ''rpm'' = Some r' \<and> s ''pitch'' = Some p' \<and>
        s ''power'' = Some pw' \<and> s ''gen_temp'' = Some tg' \<and> s ''gb_temp'' = Some tb' \<and>
        s ''vibration'' = Some v' \<and> tg' \<le> 80"
      by auto
    then obtain ws' r' p' pw' tg' tb' v' where
      f: "s ''wind_speed'' = Some ws'" "s ''rpm'' = Some r'" "s ''power'' = Some pw'"
        "s ''gen_temp'' = Some tg'" "s ''gb_temp'' = Some tb'" "s ''vibration'' = Some v'"
        "tg' \<le> 80"
      by blast
    from generator_channel_ok [of s ws' r' pw' tg' tb' v'] f warn show ?thesis
      by simp
  qed
  with sim len show "\<exists>hist. simulate config n initialize_state g = Inr hist \<and> length hist = n \<and>
        (\<forall>s \<in> set (initialize_state # hist).
           \<exists>t. s ''gen_temp'' = Some t \<and> t \<le> 80 \<and> t < GEN_TEMP_WARN config \<and>
             (\<exists>dt h. compute_physics config s = Inr dt \<and> evaluate_health config s dt = Inr h \<and>
                h ''generator_temp'' = Some ''OK'') \<and>
             (\<forall>dt h. evaluate_health config s dt = Inr h \<longrightarrow>
                h ''generator_temp'' = Some ''OK''))"
    by blast
qed

theorem gen_temp_never_alarms_witness:
  "(\<exists>state' g' tg'. step config initialize_state (sconst (1 / 2)) = Inr (state', g') \<and>
       state' ''gen_temp'' = Some tg' \<and> tg' \<le> 80)
   \<and> (\<exists>dt h. compute_physics config initialize_state = Inr dt \<and>
         evaluate_health config initialize_state dt = Inr h \<and>
         h ''generator_temp'' = Some ''OK'')"
proof -
  have hyp: "initialize_state ''wind_speed'' = Some 8 \<and> initialize_state ''pitch'' = Some 2 \<and>
    initialize_state ''gen_temp'' = Some 40 \<and> initialize_state ''gb_temp'' = Some 45 \<and>
    initialize_state ''vibration'' = Some 2.5 \<and> initialize_state ''power'' = Some 0 \<and>
    (40 :: real) \<le> 80 \<and> (0 :: real) \<le> 0 \<and> 0 \<le> RATED_POWER config"
    by (simp add: initialize_state_def config_def)
  note inst = gen_temp_never_alarms
    [of initialize_state 8 2 40 45 "2.5" 0 "sconst (1 / 2)" 1]
  from inst [THEN conjunct1] hyp
  have one: "\<exists>state' g' tg'. step config initialize_state (sconst (1 / 2)) = Inr (state', g') \<and>
       state' ''gen_temp'' = Some tg' \<and> tg' \<le> 80"
    by (rule mp)
  from inst [THEN conjunct2] obtain hist where
    "\<forall>s \<in> set (initialize_state # hist).
           \<exists>t. s ''gen_temp'' = Some t \<and> t \<le> 80 \<and> t < GEN_TEMP_WARN config \<and>
             (\<exists>dt h. compute_physics config s = Inr dt \<and> evaluate_health config s dt = Inr h \<and>
                h ''generator_temp'' = Some ''OK'') \<and>
             (\<forall>dt h. evaluate_health config s dt = Inr h \<longrightarrow>
                h ''generator_temp'' = Some ''OK'')"
    by (elim exE conjE)
  then have "\<exists>t. initialize_state ''gen_temp'' = Some t \<and> t \<le> 80 \<and>
             t < GEN_TEMP_WARN config \<and>
             (\<exists>dt h. compute_physics config initialize_state = Inr dt \<and>
                evaluate_health config initialize_state dt = Inr h \<and>
                h ''generator_temp'' = Some ''OK'') \<and>
             (\<forall>dt h. evaluate_health config initialize_state dt = Inr h \<longrightarrow>
                h ''generator_temp'' = Some ''OK'')"
    by (rule bspec) simp
  then have "\<exists>dt h. compute_physics config initialize_state = Inr dt \<and>
         evaluate_health config initialize_state dt = Inr h \<and>
         h ''generator_temp'' = Some ''OK''"
    by blast
  with one show ?thesis
    by (rule conjI)
qed

section \<open>The parameter set at startup\<close>

lemma step_initialize_state:
  assumes "RATED_POWER cfg \<noteq> 0" and "MAX_RPM cfg \<noteq> 0"
  shows "\<exists>state' g'. step cfg initialize_state g = Inr (state', g') \<and>
     state' ''rpm'' = Some (step_rpm cfg (max 0 (8 + fst (uniform (- 0.2) 0.2 g)
                                               + fst (uniform (- 0.02) 0.02 (stl g)))))"
  by (subst step_result [where ws = 8 and p = 2 and tg = 40 and tb = 45 and v = "2.5"])
    (simp_all add: initialize_state_def assms)

text \<open>
  Claim C3, as stated, fails: nothing checks the parameter set. With \<open>MIN_RPM\<close>
  set to 20, above \<open>MAX_RPM = 18\<close>, \<open>step\<close> on the initial snapshot returns a
  snapshot, not a fault, and its \<open>rpm\<close> is 20.
\<close>

theorem step_accepts_inconsistent_parameters:
  "\<not> MIN_RPM (config\<lparr>MIN_RPM := 20\<rparr>) < MAX_RPM (config\<lparr>MIN_RPM := 20\<rparr>)
   \<and> \<not> isl (step (config\<lparr>MIN_RPM := 20\<rparr>) initialize_state (sconst (1 / 2)))
   \<and> fst (projr (step (config\<lparr>MIN_RPM := 20\<rparr>) initialize_state (sconst (1 / 2)))) ''rpm''
       = Some 20"
proof -
  have nz: "RATED_POWER (config\<lparr>MIN_RPM := 20\<rparr>) \<noteq> 0" "MAX_RPM (config\<lparr>MIN_RPM := 20\<rparr>) \<noteq> 0"
    by (simp_all add: config_def)
  have rpm: "step_rpm (config\<lparr>MIN_RPM := 20\<rparr>)
      (max 0 (8 + fst (uniform (- 0.2) 0.2 (sconst (1 / 2)))
                + fst (uniform (- 0.02) 0.02 (stl (sconst (1 / 2)))))) = 20"
    by (simp add: uniform_def step_rpm_def config_def)
  from step_initialize_state [OF nz, of "sconst (1 / 2)"] rpm
  obtain state' g' where
    "step (config\<lparr>MIN_RPM := 20\<rparr>) initialize_state (sconst (1 / 2)) = Inr (state', g')"
    "state' ''rpm'' = Some 20"
    by auto
  moreover have "\<not> MIN_RPM (config\<lparr>MIN_RPM := 20\<rparr>) < MAX_RPM (config\<lparr>MIN_RPM := 20\<rparr>)"
    by (simp add: config_def)
  ultimately show ?thesis
    by simp
qed

text \<open>
  Claim C3, amended. The parameter set that \<open>config.py\<close> ships is internally
  consistent: \<open>RATED_WIND > CUT_IN_WIND\<close>, \<open>MAX_RPM > MIN_RPM\<close>,
  \<open>MAX_PITCH \<ge> MIN_PITCH\<close>, \<open>CP_MAX \<ge> CP_NOMINAL\<close>, and each WARN threshold is
  strictly below its CRITICAL threshold. The program does not check this: for any
  parameter set, consistent or not, whose \<open>RATED_POWER\<close> and \<open>MAX_RPM\<close> are not
  zero, \<open>step\<close> on the initial snapshot returns a snapshot.
\<close>

theorem shipped_parameters_consistent:
  "(CUT_IN_WIND config < RATED_WIND config \<and> MIN_RPM config < MAX_RPM config \<and>
    MIN_PITCH config \<le> MAX_PITCH config \<and> CP_NOMINAL config \<le> CP_MAX config \<and>
    GEN_TEMP_WARN config < GEN_TEMP_CRIT config \<and> GB_TEMP_WARN config < GB_TEMP_CRIT config \<and>
    VIB_WARN config < VIB_CRIT config)
   \<and> (RATED_POWER cfg \<noteq> 0 \<and> MAX_RPM cfg \<noteq> 0 \<longrightarrow>
        (\<exists>state' g'. step cfg initialize_state g = Inr (state', g')))"
proof (intro conjI impI)
  assume "RATED_POWER cfg \<noteq> 0 \<and> MAX_RPM cfg \<noteq> 0"
  with step_initialize_state [of cfg g]
  show "\<exists>state' g'. step cfg initialize_state g = Inr (state', g')"
    by blast
qed (simp_all add: config_def)

theorem shipped_parameters_consistent_witness:
  "\<not> GEN_TEMP_WARN (config\<lparr>GEN_TEMP_WARN := 100\<rparr>) < GEN_TEMP_CRIT (config\<lparr>GEN_TEMP_WARN := 100\<rparr>)
   \<and> (\<exists>state' g'. step (config\<lparr>GEN_TEMP_WARN := 100\<rparr>) initialize_state (sconst (1 / 2))
          = Inr (state', g'))"
proof -
  have "RATED_POWER (config\<lparr>GEN_TEMP_WARN := 100\<rparr>) \<noteq> 0 \<and>
        MAX_RPM (config\<lparr>GEN_TEMP_WARN := 100\<rparr>) \<noteq> 0"
    by (simp add: config_def)
  with shipped_parameters_consistent [of "config\<lparr>GEN_TEMP_WARN := 100\<rparr>" "sconst (1 / 2)"]
  have "\<exists>state' g'. step (config\<lparr>GEN_TEMP_WARN := 100\<rparr>) initialize_state (sconst (1 / 2))
          = Inr (state', g')"
    by blast
  moreover have "\<not> GEN_TEMP_WARN (config\<lparr>GEN_TEMP_WARN := 100\<rparr>)
                   < GEN_TEMP_CRIT (config\<lparr>GEN_TEMP_WARN := 100\<rparr>)"
    by (simp add: config_def)
  ultimately show ?thesis
    by (intro conjI)
qed

section \<open>Power coefficient of snapshots\<close>

text \<open>
  Claim C2. For every snapshot, \<open>compute_physics\<close> returns a power coefficient
  \<open>cp\<close> with \<open>0 \<le> cp \<le> CP_MAX\<close>. A snapshot's power lies in its declared range
  \<open>[0, RATED_POWER]\<close>; the lower bound uses that the power is not negative, the
  upper bound uses nothing. When the measured power exceeds an available wind power
  above 1, \<open>cp\<close> is exactly \<open>CP_MAX\<close>. Every snapshot that \<open>step\<close> returns has
  \<open>0 \<le> cp \<le> CP_MAX\<close>.
\<close>

theorem compute_physics_cp_bounds:
  "(scada ''wind_speed'' = Some wind \<and> scada ''rpm'' = Some rpm \<and> scada ''power'' = Some pw \<longrightarrow>
      (\<exists>dt c. compute_physics config scada = Inr dt \<and> dt ''cp'' = Some c \<and>
         c \<le> CP_MAX config \<and>
         (0 \<le> pw \<longrightarrow> 0 \<le> c) \<and>
         (0 < wind \<and> 1 < 0.5 * AIR_DENSITY config * ROTOR_AREA config * wind ^ 3 \<and>
          0.5 * AIR_DENSITY config * ROTOR_AREA config * wind ^ 3 < pw
            \<longrightarrow> c = CP_MAX config)))
   \<and> (state ''wind_speed'' = Some ws \<and> state ''pitch'' = Some p \<and>
      state ''gen_temp'' = Some tg \<and> state ''gb_temp'' = Some tb \<and>
      state ''vibration'' = Some v \<longrightarrow>
      (\<exists>state' g' dt c. step config state g = Inr (state', g') \<and>
         compute_physics config state' = Inr dt \<and> dt ''cp'' = Some c \<and>
         0 \<le> c \<and> c \<le> CP_MAX config))"
proof (intro conjI impI)
  assume "scada ''wind_speed'' = Some wind \<and> scada ''rpm'' = Some rpm \<and>
    scada ''power'' = Some pw"
  with compute_physics_cp_range [of scada wind rpm pw]
  show "\<exists>dt c. compute_physics config scada = Inr dt \<and> dt ''cp'' = Some c \<and>
         c \<le> CP_MAX config \<and>
         (0 \<le> pw \<longrightarrow> 0 \<le> c) \<and>
         (0 < wind \<and> 1 < 0.5 * AIR_DENSITY config * ROTOR_AREA config * wind ^ 3 \<and>
          0.5 * AIR_DENSITY config * ROTOR_AREA config * wind ^ 3 < pw
            \<longrightarrow> c = CP_MAX config)"
    by blast
next
  assume "state ''wind_speed'' = Some ws \<and> state ''pitch'' = Some p \<and>
      state ''gen_temp'' = Some tg \<and> state ''gb_temp'' = Some tb \<and> state ''vibration'' = Some v"
  with step_fields [of state ws p tg tb v g]
  obtain state' g' ws' r' pw' where ret: "step config state g = Inr (state', g')"
    and f: "state' ''wind_speed'' = Some ws'" "state' ''rpm'' = Some r'"
      "state' ''power'' = Some pw'"
    and pw: "0 \<le> pw'"
    by blast
  from compute_physics_cp_range [of state' ws' r' pw'] f pw
  obtain dt c where "compute_physics config state' = Inr dt" "dt ''cp'' = Some c"
    "c \<le> CP_MAX config" "0 \<le> c"
    by blast
  with ret show "\<exists>state' g' dt c. step config state g = Inr (state', g') \<and>
         compute_physics config state' = Inr dt \<and> dt ''cp'' = Some c \<and>
         0 \<le> c \<and> c \<le> CP_MAX config"
    by blast
qed

theorem compute_physics_cp_bounds_witness:
  "(\<exists>dt c. compute_physics config
             [''wind_speed'' \<mapsto> 8, ''rpm'' \<mapsto> 8, ''power'' \<mapsto> 2000000] = Inr dt \<and>
      dt ''cp'' = Some c \<and> c = CP_MAX config \<and> 0 \<le> c)
   \<and> (\<exists>state' g' dt c. step config initialize_state (sconst (1 / 2)) = Inr (state', g') \<and>
         compute_physics config state' = Inr dt \<and> dt ''cp'' = Some c \<and>
         0 \<le> c \<and> c \<le> CP_MAX config)"
proof -
  note inst = compute_physics_cp_bounds
    [of "[''wind_speed'' \<mapsto> 8, ''rpm'' \<mapsto> 8, ''power'' \<mapsto> 2000000]" 8 8 2000000
        initialize_state 8 2 40 45 "2.5" "sconst (1 / 2)"]
  have range: "0 < (8::real) \<and> 1 < 0.5 * AIR_DENSITY config * ROTOR_AREA config * 8 ^ 3 \<and>
        0.5 * AIR_DENSITY config * ROTOR_AREA config * 8 ^ 3 < 2000000"
    by (simp add: config_def)
  from inst [THEN conjunct1] range
  have one: "\<exists>dt c. compute_physics config
             [''wind_speed'' \<mapsto> 8, ''rpm'' \<mapsto> 8, ''power'' \<mapsto> 2000000] = Inr dt \<and>
      dt ''cp'' = Some c \<and> c = CP_MAX config \<and> 0 \<le> c"
    by auto
  have keys: "initialize_state ''wind_speed'' = Some 8 \<and> initialize_state ''pitch'' = Some 2 \<and>
      initialize_state ''gen_temp'' = Some 40 \<and> initialize_state ''gb_temp'' = Some 45 \<and>
      initialize_state ''vibration'' = Some 2.5"
    by (simp add: initialize_state_def)
  from inst [THEN conjunct2] keys
  have two: "\<exists>state' g' dt c. step config initialize_state (sconst (1 / 2)) = Inr (state', g') \<and>
         compute_physics config state' = Inr dt \<and> dt ''cp'' = Some c \<and>
         0 \<le> c \<and> c \<le> CP_MAX config"
    by (rule mp)
  from one two show ?thesis
    by (rule conjI)
qed

section \<open>Rounding to binary64\<close>

lemma round_even_of_int [simp]: "round_even (of_int n) = n"
  by (simp add: round_even_def)

lemma round_even_near:
  assumes "\<bar>y - of_int n\<bar> < 1 / 2"
  shows "round_even y = n"
proof (cases "of_int n \<le> y")
  case True
  with assms have "\<lfloor>y\<rfloor> = n"
    by (intro floor_unique) auto
  with assms True show ?thesis
    by (simp add: round_even_def)
next
  case False
  with assms have f: "\<lfloor>y\<rfloor> = n - 1"
    by (intro floor_unique) auto
  with assms False show ?thesis
    by (auto simp: round_even_def Let_def)
qed


lemma round_even_range:
  "\<lfloor>y\<rfloor> \<le> round_even y" "round_even y \<le> \<lfloor>y\<rfloor> + 1"
  by (simp_all add: round_even_def Let_def)

lemma round_even_mono:
  assumes "x \<le> y"
  shows "round_even x \<le> round_even y"
proof (cases "\<lfloor>x\<rfloor> = \<lfloor>y\<rfloor>")
  case True
  with assms show ?thesis
    by (auto simp: round_even_def Let_def)
next
  case False
  with assms have "\<lfloor>x\<rfloor> < \<lfloor>y\<rfloor>"
    by (simp add: floor_mono order.not_eq_order_implies_strict)
  with round_even_range(2) [of x] round_even_range(1) [of y] show ?thesis
    by linarith
qed

lemma two_powr_int: "(2 :: real) powr of_int k = 2 powi k"
  by (simp add: powr_int power_int_def inverse_eq_divide power_one_over)


lemma two_powi_less_D:
  assumes "(2 :: real) powi m < 2 powi n"
  shows "m < n"
proof (rule ccontr)
  assume "\<not> m < n"
  then have "(2 :: real) powi n \<le> 2 powi m"
    by (intro power_int_increasing) simp_all
  with assms show False
    by simp
qed

lemma binade:
  assumes "0 < a"
  shows "2 powi \<lfloor>log 2 a\<rfloor> \<le> a" and "a < 2 powi (\<lfloor>log 2 a\<rfloor> + 1)"
proof -
  have "\<lfloor>log 2 a\<rfloor> = \<lfloor>log 2 a\<rfloor>" ..
  with assms have "2 powr of_int \<lfloor>log 2 a\<rfloor> \<le> a \<and> a < 2 powr of_int (\<lfloor>log 2 a\<rfloor> + 1)"
    by (subst (asm) floor_log_eq_powr_iff) simp_all
  then show "2 powi \<lfloor>log 2 a\<rfloor> \<le> a" and "a < 2 powi (\<lfloor>log 2 a\<rfloor> + 1)"
    by (simp_all only: two_powr_int)
qed

lemma floor_log2_eq:
  assumes "2 powi k \<le> a" and "a < 2 powi (k + 1)"
  shows "\<lfloor>log 2 a\<rfloor> = k"
proof -
  have "0 < (2 :: real) powi k"
    by simp
  with assms(1) have "0 < a"
    by linarith
  moreover from assms have "2 powr of_int k \<le> a \<and> a < 2 powr of_int (k + 1)"
    by (simp only: two_powr_int)
  ultimately show ?thesis
    by (subst floor_log_eq_powr_iff) simp_all
qed

lemma exponent64_ge: "- 1022 \<le> exponent64 x"
  by (simp add: exponent64_def)

lemma exponent64_minus [simp]: "exponent64 (- x) = exponent64 x"
  by (simp add: exponent64_def)

lemma exponent64_abs [simp]: "exponent64 \<bar>x\<bar> = exponent64 x"
  by (simp add: exponent64_def)

lemma exponent64_upper:
  assumes "x \<noteq> 0"
  shows "\<bar>x\<bar> < 2 powi (exponent64 x + 1)"
proof -
  from assms have "\<bar>x\<bar> < 2 powi (\<lfloor>log 2 \<bar>x\<bar>\<rfloor> + 1)"
    by (intro binade) simp
  also have "\<dots> \<le> 2 powi (exponent64 x + 1)"
    by (intro power_int_increasing) (simp_all add: exponent64_def)
  finally show ?thesis .
qed

lemma exponent64_lower:
  assumes "x \<noteq> 0" and "- 1022 < exponent64 x"
  shows "2 powi exponent64 x \<le> \<bar>x\<bar>"
proof -
  from assms(2) have "exponent64 x = \<lfloor>log 2 \<bar>x\<bar>\<rfloor>"
    by (simp add: exponent64_def max_def split: if_splits)
  with assms(1) binade(1) [of "\<bar>x\<bar>"] show ?thesis
    by simp
qed

lemma exponent64_normal:
  assumes "- 1022 \<le> k" and "2 powi k \<le> \<bar>x\<bar>" and "\<bar>x\<bar> < 2 powi (k + 1)"
  shows "exponent64 x = k"
  using floor_log2_eq [OF assms(2,3)] assms(1) by (simp add: exponent64_def)

lemma exponent64_subnormal:
  assumes "x \<noteq> 0" and "\<bar>x\<bar> < 2 powi (- 1022)"
  shows "exponent64 x = - 1022"
proof -
  from assms(1) have "2 powi \<lfloor>log 2 \<bar>x\<bar>\<rfloor> \<le> \<bar>x\<bar>"
    by (intro binade) simp
  with assms(2) have "(2 :: real) powi \<lfloor>log 2 \<bar>x\<bar>\<rfloor> < 2 powi (- 1022)"
    by linarith
  then have "\<lfloor>log 2 \<bar>x\<bar>\<rfloor> < - 1022"
    by (rule two_powi_less_D)
  then show ?thesis
    by (simp add: exponent64_def)
qed


lemma ulp64_minus [simp]: "ulp64 (- x) = ulp64 x"
  by (simp add: ulp64_def)

lemma round64_zero [simp]: "round64 0 = 0"
  by (simp add: round64_def)

lemma round64_minus: "round64 (- x) = - round64 x"
  by (simp add: round64_def sgn_minus)

lemma round64_pos:
  assumes "0 < x"
  shows "round64 x = of_int (round_even (x / ulp64 x)) * ulp64 x"
  using assms by (simp add: round64_def)


lemma two_powi_shift:
  "(2 :: real) powi e = 2 ^ 52 * 2 powi (e - 52)"
  "(2 :: real) powi (e + 1) = 2 ^ 53 * 2 powi (e - 52)"
  "(2 :: real) powi (e + 1 - 52) = 2 * 2 powi (e - 52)"
proof -
  have "(2 :: real) powi (52 + (e - 52)) = 2 powi 52 * 2 powi (e - 52)"
    by (rule power_int_add) simp
  then show "(2 :: real) powi e = 2 ^ 52 * 2 powi (e - 52)"
    by simp
  have "(2 :: real) powi (53 + (e - 52)) = 2 powi 53 * 2 powi (e - 52)"
    by (rule power_int_add) simp
  then show "(2 :: real) powi (e + 1) = 2 ^ 53 * 2 powi (e - 52)"
    by (simp add: algebra_simps)
  have "(2 :: real) powi (1 + (e - 52)) = 2 powi 1 * 2 powi (e - 52)"
    by (rule power_int_add) simp
  then show "(2 :: real) powi (e + 1 - 52) = 2 * 2 powi (e - 52)"
    by (simp add: algebra_simps)
qed

text \<open>Every value \<open>N * 2 powi (e - 52)\<close> of the binary64 format is left as it is.\<close>

lemma round64_fixed:
  assumes "0 \<le> N" and "N \<le> 2 ^ 53" and "- 1022 \<le> e" and "2 ^ 52 \<le> N \<or> e = - 1022"
  shows "round64 (of_int N * 2 powi (e - 52)) = of_int N * 2 powi (e - 52)"
proof -
  define q :: real where "q = 2 powi (e - 52)"
  define v where "v = of_int N * q"
  have q: "0 < q"
    by (simp add: q_def)
  have pw: "2 powi e = 2 ^ 52 * q" "2 powi (e + 1) = 2 ^ 53 * q" "2 powi (e + 1 - 52) = 2 * q"
    unfolding q_def by (rule two_powi_shift)+
  consider "N = 0" | "N = 2 ^ 53" | "2 ^ 52 \<le> N" "N < 2 ^ 53" | "0 < N" "N < 2 ^ 52"
    using assms(1,2) by linarith
  then have "round64 v = v"
  proof cases
    case 1
    then show ?thesis
      by (simp add: v_def)
  next
    case 2
    then have v: "v = 2 powi (e + 1)"
      by (simp add: v_def pw)
    have "(2 :: real) powi (e + 1) < 2 powi (e + 1 + 1)"
      by (intro power_int_strict_increasing) simp_all
    with v assms(3) have ex: "exponent64 v = e + 1"
      by (intro exponent64_normal) simp_all
    have pos: "0 < v"
      by (simp add: v)
    have u: "ulp64 v = 2 * q"
      by (simp only: ulp64_def ex pw)
    have v': "v = 2 ^ 53 * q"
      by (simp only: v pw)
    have "v / (2 * q) = of_int (2 ^ 52)"
      using q by (simp add: v')
    then have "round_even (v / ulp64 v) = 2 ^ 52"
      by (simp only: u round_even_of_int)
    then show ?thesis
      by (simp add: round64_pos [OF pos] u) (simp add: v')
  next
    case 3
    then have "(2 :: real) ^ 52 \<le> of_int N" "of_int N < (2 :: real) ^ 53"
      by simp_all
    with q have "2 ^ 52 * q \<le> v" "v < 2 ^ 53 * q"
      by (simp_all add: v_def)
    then have b: "2 powi e \<le> v" "v < 2 powi (e + 1)"
      by (simp_all add: pw)
    have "0 < (2 :: real) powi e"
      by simp
    with b have pos: "0 < v"
      by linarith
    with b assms(3) have ex: "exponent64 v = e"
      by (intro exponent64_normal) simp_all
    have u: "ulp64 v = q"
      by (simp only: ulp64_def ex q_def)
    have "v / q = of_int N"
      using q by (simp add: v_def)
    then have "round_even (v / ulp64 v) = N"
      by (simp only: u round_even_of_int)
    then show ?thesis
      by (simp add: round64_pos [OF pos] u) (simp add: v_def)
  next
    case 4
    with assms(4) have e: "e = - 1022"
      by linarith
    from 4 have "0 < (of_int N :: real)" "of_int N < (2 :: real) ^ 52"
      by simp_all
    with q have pos: "0 < v" and "v < 2 ^ 52 * q"
      by (simp_all add: v_def)
    then have "\<bar>v\<bar> < 2 powi (- 1022)"
      using pw(1) by (simp add: e)
    with pos have ex: "exponent64 v = e"
      unfolding e by (intro exponent64_subnormal) simp_all
    have u: "ulp64 v = q"
      by (simp only: ulp64_def ex q_def)
    have "v / q = of_int N"
      using q by (simp add: v_def)
    then have "round_even (v / ulp64 v) = N"
      by (simp only: u round_even_of_int)
    then show ?thesis
      by (simp add: round64_pos [OF pos] u) (simp add: v_def)
  qed
  then show ?thesis
    by (simp only: v_def q_def)
qed

text \<open>Every rounded value is a value of the format.\<close>

lemma round64_form:
  assumes "0 < x"
  shows "\<exists>N e. round64 x = of_int N * 2 powi (e - 52) \<and> 0 \<le> N \<and> N \<le> 2 ^ 53 \<and>
           - 1022 \<le> e \<and> (2 ^ 52 \<le> N \<or> e = - 1022)"
proof -
  define e where "e = exponent64 x"
  define q :: real where "q = 2 powi (e - 52)"
  define N where "N = round_even (x / q)"
  have q: "0 < q"
    by (simp add: q_def)
  have pw: "2 powi e = 2 ^ 52 * q" "2 powi (e + 1) = 2 ^ 53 * q"
    unfolding q_def by (rule two_powi_shift)+
  have r: "round64 x = of_int N * 2 powi (e - 52)"
    by (simp add: round64_pos [OF assms] ulp64_def N_def q_def e_def)
  from assms q have "0 \<le> x / q"
    by simp
  then have "round_even 0 \<le> round_even (x / q)"
    by (rule round_even_mono)
  then have n0: "0 \<le> N"
    using round_even_of_int [of 0] by (simp add: N_def)
  from assms exponent64_upper [of x] have "x < 2 ^ 53 * q"
    by (simp add: e_def [symmetric] pw)
  with q have "x / q \<le> of_int (2 ^ 53)"
    by (simp add: field_simps)
  then have "round_even (x / q) \<le> round_even (of_int (2 ^ 53))"
    by (rule round_even_mono)
  then have n1: "N \<le> 2 ^ 53"
    by (simp only: round_even_of_int N_def)
  have n2: "2 ^ 52 \<le> N" if "e \<noteq> - 1022"
  proof -
    from that exponent64_ge [of x] have "- 1022 < exponent64 x"
      by (simp add: e_def)
    with assms exponent64_lower [of x] have "2 ^ 52 * q \<le> x"
      by (simp add: e_def [symmetric] pw)
    with q have "of_int (2 ^ 52) \<le> x / q"
      by (simp add: field_simps)
    then have "round_even (of_int (2 ^ 52)) \<le> round_even (x / q)"
      by (rule round_even_mono)
    then show ?thesis
      by (simp only: round_even_of_int N_def)
  qed
  from r n0 n1 n2 exponent64_ge [of x] show ?thesis
    unfolding e_def [symmetric] by blast
qed

lemma round64_idem [simp]: "round64 (round64 x) = round64 x"
proof -
  have pos: "round64 (round64 y) = round64 y" if "0 < y" for y
  proof -
    from round64_form [OF that] obtain N e where
      "round64 y = of_int N * 2 powi (e - 52)" "0 \<le> N" "N \<le> 2 ^ 53" "- 1022 \<le> e"
      "2 ^ 52 \<le> N \<or> e = - 1022"
      by blast
    with round64_fixed [of N e] show ?thesis
      by simp
  qed
  consider "0 < x" | "x = 0" | "0 < - x"
    by linarith
  then show ?thesis
  proof cases
    case 1
    then show ?thesis
      by (rule pos)
  next
    case 2
    then show ?thesis
      by simp
  next
    case 3
    from pos [OF 3] show ?thesis
      by (simp add: round64_minus)
  qed
qed








lemma round64_power_of_two:
  assumes "- 1074 \<le> k"
  shows "round64 (2 powi k) = 2 powi k"
proof (cases "- 1022 \<le> k")
  case True
  have "round64 (of_int (2 ^ 52) * 2 powi (k - 52)) = of_int (2 ^ 52) * 2 powi (k - 52)"
    using True by (intro round64_fixed) simp_all
  then show ?thesis
    by (simp add: two_powi_shift(1) [of k])
next
  case False
  define n where "n = nat (k + 1074)"
  from assms False have n: "n < 52" "k = int n - 1074"
    by (simp_all add: n_def)
  have "(2 :: real) powi (int n + (- 1074)) = 2 powi int n * 2 powi (- 1074)"
    by (rule power_int_add) simp
  then have k: "(2 :: real) powi k = of_int (2 ^ n) * 2 powi (- 1022 - 52)"
    by (simp add: n(2))
  from n(1) have "(2 :: int) ^ n \<le> 2 ^ 53"
    by (intro power_increasing) simp_all
  then have "round64 (of_int (2 ^ n) * 2 powi (- 1022 - 52)) = of_int (2 ^ n) * 2 powi (- 1022 - 52)"
    by (intro round64_fixed) simp_all
  then show ?thesis
    by (simp only: k)
qed








lemma round64_one [simp]: "round64 1 = 1"
  using round64_power_of_two [of 0] by simp

lemma round64_80 [simp]: "round64 80 = 80"
proof -
  have "round64 (of_int (80 * 2 ^ 46) * 2 powi (6 - 52)) = of_int (80 * 2 ^ 46) * 2 powi (6 - 52)"
    by (rule round64_fixed) simp_all
  then show ?thesis
    by simp
qed




lemma round64_near:
  assumes "0 < x" and "- 1022 \<le> k" and "2 powi k \<le> x" and "x < 2 powi (k + 1)"
    and "\<bar>x / 2 powi (k - 52) - of_int n\<bar> < 1 / 2"
  shows "round64 x = of_int n * 2 powi (k - 52)"
proof -
  from assms(1-4) have "exponent64 x = k"
    by (intro exponent64_normal) simp_all
  then have u: "ulp64 x = 2 powi (k - 52)"
    by (simp add: ulp64_def)
  from assms(5) have "round_even (x / 2 powi (k - 52)) = n"
    by (rule round_even_near)
  then show ?thesis
    by (simp add: round64_pos [OF assms(1)] u)
qed


lemma literal_0_01_nearest: "f64 (1 / 100) = Some literal_0_01"
proof -
  have "round64 (1 / 100) = of_int 5764607523034235 * 2 powi (- 7 - 52)"
    by (rule round64_near) (simp_all add: power_int_minus_divide)
  then have "round64 (1 / 100) = literal_0_01"
    by (simp add: literal_0_01_def power_int_minus_divide)
  then show ?thesis
    by (simp add: f64_def literal_0_01_def)
qed


section \<open>The generator-temperature relaxation in double precision\<close>




end
